theory Spec2Isabelle
  imports Complex_Main "HOL-Library.Sublist" "HOL-Library.Multiset"
begin

section \<open>Python values, dictionaries and exceptions\<close>

text \<open>
  The recommender of \<^verbatim>\<open>src/recommender.py\<close> works on dictionaries with string keys.
  A value is \<^verbatim>\<open>None\<close> (what \<^verbatim>\<open>load_index\<close> stores for a NaN cell), a string, or a
  number; Python compares \<^verbatim>\<open>int\<close> and \<^verbatim>\<open>float\<close> by value, so both are one
  constructor over the reals (NaN and the infinities are not represented).
  Strings are byte lists; the character classes below are the ASCII part of what
  Python's \<^verbatim>\<open>str\<close> and \<^verbatim>\<open>re\<close> use.
\<close>

datatype pyval = PNone | PStr string | PNum real

type_synonym pydict = "string \<rightharpoonup> pyval"

datatype exn = ValueError | IndexError | AttributeError | KeyError | TypeError | OtherException

text \<open>\<^verbatim>\<open>d.get(k, default)\<close>\<close>

definition dict_get :: "pydict \<Rightarrow> string \<Rightarrow> pyval \<Rightarrow> pyval" where
  "dict_get d k dflt = (case d k of None \<Rightarrow> dflt | Some v \<Rightarrow> v)"

text \<open>Truth value of an object, as \<^verbatim>\<open>if x\<close>, \<^verbatim>\<open>x or y\<close> and \<^verbatim>\<open>not x\<close> test it.\<close>

fun truthy :: "pyval \<Rightarrow> bool" where
  "truthy PNone = False"
| "truthy (PStr s) = (s \<noteq> [])"
| "truthy (PNum r) = (r \<noteq> 0)"

definition py_or :: "pyval \<Rightarrow> pyval \<Rightarrow> pyval" where
  "py_or a b = (if truthy a then a else b)"

text \<open>
  \<^verbatim>\<open>xs[i]\<close> on a list: a negative index counts from the end, anything outside
  raises \<^verbatim>\<open>IndexError\<close>.
\<close>

definition py_index :: "'a list \<Rightarrow> int \<Rightarrow> exn + 'a" where
  "py_index xs i =
     (if int (length xs) \<le> i \<or> i < - int (length xs) then Inl IndexError
      else if i < 0 then Inr (xs ! nat (int (length xs) + i))
      else Inr (xs ! nat i))"

text \<open>\<^verbatim>\<open>xs[:k]\<close>: a negative bound drops that many elements from the end.\<close>

definition py_take :: "int \<Rightarrow> 'a list \<Rightarrow> 'a list" where
  "py_take k xs = (if 0 \<le> k then take (nat k) xs else take (length xs - nat (- k)) xs)"

text \<open>
  \<^verbatim>\<open>x.get('similarity', 0)\<close>, the sort key. \<^verbatim>\<open>recommend\<close> stores
  \<^verbatim>\<open>float(similarity)\<close> under this key on every candidate it builds (line 186) before
  anything reads it, and the private helpers are only called from there, so the value is a
  number whenever the key is present.
\<close>

definition similarity_of :: "pydict \<Rightarrow> real" where
  "similarity_of c = (case dict_get c ''similarity'' (PNum 0) of PNum r \<Rightarrow> r | _ \<Rightarrow> 0)"

text \<open>
  \<^verbatim>\<open>sorted(cs, key=lambda x: x.get('similarity', 0), reverse=True)\<close> and the in-place
  \<^verbatim>\<open>cs.sort(...)\<close> with the same arguments. Python's sort is stable, also with
  \<^verbatim>\<open>reverse=True\<close>: candidates of equal similarity keep their order. A stable sort has
  one result, the one of the insertion sort \<^const>\<open>sort_key\<close> on the negated key.
\<close>

definition sorted_by_similarity :: "pydict list \<Rightarrow> pydict list" where
  "sorted_by_similarity cs = sort_key (\<lambda>c. - similarity_of c) cs"

section \<open>Candidate collection (\<^verbatim>\<open>recommend\<close>, lines 177-194)\<close>

text \<open>\<^verbatim>\<open>url = result.get('URL', '') or result.get('url', '')\<close>\<close>

definition url_key :: "pydict \<Rightarrow> pyval" where
  "url_key result = py_or (dict_get result ''URL'' (PStr [])) (dict_get result ''url'' (PStr []))"

text \<open>
  The loop over \<^verbatim>\<open>zip(similarities[0], indices[0])\<close>. Its state is the list
  \<^verbatim>\<open>all_candidates\<close> and the set \<^verbatim>\<open>seen_urls\<close>. The only guard on the offset is
  \<^verbatim>\<open>idx >= len(self.metadata)\<close>; every other offset goes to
  \<^verbatim>\<open>self.metadata[idx]\<close>.
\<close>

fun collect_loop ::
  "pydict list \<Rightarrow> (real \<times> int) list \<Rightarrow> pydict list \<Rightarrow> pyval set \<Rightarrow> exn + pydict list" where
  "collect_loop metadata [] all_candidates seen_urls = Inr all_candidates"
| "collect_loop metadata ((similarity, idx) # rest) all_candidates seen_urls =
     (if idx \<ge> int (length metadata) then collect_loop metadata rest all_candidates seen_urls
      else case py_index metadata idx of
        Inl e \<Rightarrow> Inl e
      | Inr record \<Rightarrow>
          (let result = record(''similarity'' \<mapsto> PNum similarity);
               url = url_key result
           in if url \<in> seen_urls then collect_loop metadata rest all_candidates seen_urls
              else collect_loop metadata rest (all_candidates @ [result]) (insert url seen_urls)))"

definition collect_candidates :: "pydict list \<Rightarrow> (real \<times> int) list \<Rightarrow> exn + pydict list" where
  "collect_candidates metadata hits = collect_loop metadata hits [] {}"

section \<open>Query embedding (\<^verbatim>\<open>generate_query_embedding\<close>, lines 92-146)\<close>

text \<open>ASCII white space, as \<^verbatim>\<open>str.strip()\<close>, \<^verbatim>\<open>str.isspace()\<close> and \<^verbatim>\<open>\s\<close> see it.\<close>

definition is_space :: "char \<Rightarrow> bool" where
  "is_space c \<longleftrightarrow>
     c \<in> set [CHR 0x09, CHR 0x0A, CHR 0x0B, CHR 0x0C, CHR 0x0D,
               CHR 0x1C, CHR 0x1D, CHR 0x1E, CHR 0x1F, CHR 0x20]"

definition py_strip :: "string \<Rightarrow> string" where
  "py_strip s = rev (dropWhile is_space (rev (dropWhile is_space s)))"

definition EMBEDDING_DIMENSION :: nat where
  "EMBEDDING_DIMENSION = 768"

text \<open>
  The embedding provider is outside the repository. Each of the three call conventions
  the function tries is a function from the text to either the exception it raises or
  the vector \<^verbatim>\<open>np.array(..., dtype=np.float32)\<close> builds from its answer.
\<close>

record embedding_provider =
  embed_content :: "string \<Rightarrow> exn + real list"
  model_embed_content :: "string \<Rightarrow> exn + real list"
  rest_embed_content :: "string \<Rightarrow> exn + real list"

text \<open>Lines 103-105: the text that reaches the provider.\<close>

definition effective_query :: "string \<Rightarrow> string" where
  "effective_query query = (let q = py_strip query in if q = [] then ''assessment'' else q)"

text \<open>
  Lines 109-140. Method 2 is tried when method 1 raises \<^verbatim>\<open>KeyError\<close>,
  \<^verbatim>\<open>TypeError\<close> or \<^verbatim>\<open>AttributeError\<close>; any other exception of method 1 leaves
  the inner \<^verbatim>\<open>try\<close>. Method 3 is tried when method 2 raises anything.
\<close>

definition embed_methods :: "embedding_provider \<Rightarrow> string \<Rightarrow> exn + real list" where
  "embed_methods p query =
     (case embed_content p query of
        Inr embedding \<Rightarrow> Inr embedding
      | Inl e \<Rightarrow>
          if e = KeyError \<or> e = TypeError \<or> e = AttributeError then
            (case model_embed_content p query of
               Inr embedding \<Rightarrow> Inr embedding
             | Inl e2 \<Rightarrow> rest_embed_content p query)
          else Inl e)"

text \<open>The outer \<^verbatim>\<open>try ... except Exception\<close> returns \<^verbatim>\<open>np.zeros(self.dimension)\<close>.\<close>

definition generate_query_embedding ::
  "nat \<Rightarrow> embedding_provider \<Rightarrow> string \<Rightarrow> exn + real list" where
  "generate_query_embedding dimension p query =
     (case embed_methods p (effective_query query) of
        Inr embedding \<Rightarrow> Inr embedding
      | Inl e \<Rightarrow> Inr (replicate dimension 0))"

section \<open>Parsing the ranking (\<^verbatim>\<open>_rerank_with_gemini\<close>, lines 479-507)\<close>

definition is_digit :: "char \<Rightarrow> bool" where
  "is_digit c \<longleftrightarrow> c \<in> set ''0123456789''"

definition is_word :: "char \<Rightarrow> bool" where
  "is_word c \<longleftrightarrow>
     c \<in> set ''abcdefghijklmnopqrstuvwxyzABCDEFGHIJKLMNOPQRSTUVWXYZ0123456789_''"

definition ascii_lower :: "char \<Rightarrow> char" where
  "ascii_lower c =
     (case map_of (zip ''ABCDEFGHIJKLMNOPQRSTUVWXYZ'' ''abcdefghijklmnopqrstuvwxyz'') c of
        None \<Rightarrow> c | Some l \<Rightarrow> l)"

definition ascii_upper :: "char \<Rightarrow> char" where
  "ascii_upper c =
     (case map_of (zip ''abcdefghijklmnopqrstuvwxyz'' ''ABCDEFGHIJKLMNOPQRSTUVWXYZ'') c of
        None \<Rightarrow> c | Some u \<Rightarrow> u)"

definition py_lower :: "string \<Rightarrow> string" where
  "py_lower s = map ascii_lower s"

definition py_upper :: "string \<Rightarrow> string" where
  "py_upper s = map ascii_upper s"

text \<open>
  \<^verbatim>\<open>re.sub(r'^(ranking|order|result|output|assessment|recommendation):?\s*', '', text,
  flags=re.IGNORECASE)\<close>: the pattern is anchored at the start of the text, so it is
  removed at most once. No word of the alternation is a prefix of another.
\<close>

definition prefix_words :: "string list" where
  "prefix_words =
     [''ranking'', ''order'', ''result'', ''output'', ''assessment'', ''recommendation'']"

definition remove_prefix :: "string \<Rightarrow> string" where
  "remove_prefix text =
     (case find (\<lambda>w. prefix w (py_lower text)) prefix_words of
        None \<Rightarrow> text
      | Some w \<Rightarrow>
          (let rest = drop (length w) text;
               rest' = (case rest of [] \<Rightarrow> rest | c # r \<Rightarrow> if c = CHR '':'' then r else rest)
           in dropWhile is_space rest'))"

text \<open>\<^verbatim>\<open>re.sub(r'[\[\]()]', '', text)\<close>\<close>

definition remove_brackets :: "string \<Rightarrow> string" where
  "remove_brackets text = filter (\<lambda>c. c \<notin> set ''[]()'') text"

text \<open>
  The text that \<^verbatim>\<open>(?:\s*,\s*\d+)*\<close> matches at the start of \<open>s\<close>. The quantifiers
  are greedy, and giving characters back never helps: white space, the comma and the
  digits are disjoint classes.
\<close>

function comma_items :: "string \<Rightarrow> string" where
  "comma_items s =
     (case dropWhile is_space s of
        [] \<Rightarrow> []
      | c # s2 \<Rightarrow>
          if c = CHR '','' \<and> takeWhile is_digit (dropWhile is_space s2) \<noteq> [] then
            takeWhile is_space s @ [c] @ takeWhile is_space s2
              @ takeWhile is_digit (dropWhile is_space s2)
              @ comma_items (dropWhile is_digit (dropWhile is_space s2))
          else [])"
  by pat_completeness auto
termination
proof (relation "measure length")
  show "wf (measure length)" by simp
next
  fix s :: string and c s2
  assume "dropWhile is_space s = c # s2"
  then have "length s2 < length s"
    using length_dropWhile_le[of is_space s] by simp
  moreover have "length (dropWhile is_digit (dropWhile is_space s2)) \<le> length s2"
    using length_dropWhile_le[of is_digit "dropWhile is_space s2"]
      length_dropWhile_le[of is_space s2] by simp
  ultimately show "(dropWhile is_digit (dropWhile is_space s2), s) \<in> measure length"
    by simp
qed

text \<open>
  \<^verbatim>\<open>re.search(r'(\d+(?:\s*,\s*\d+)+)', text)\<close>: the leftmost position where a run
  of digits is followed by at least one comma item; group 1 is the whole match.
\<close>

fun search_number_run :: "string \<Rightarrow> string option" where
  "search_number_run [] = None"
| "search_number_run (c # s) =
     (if is_digit c \<and> comma_items (dropWhile is_digit s) \<noteq> []
      then Some (c # takeWhile is_digit s @ comma_items (dropWhile is_digit s))
      else search_number_run s)"

text \<open>
  \<^verbatim>\<open>re.findall(r'\b\d+\b', text)\<close>: the maximal runs of digits with no word
  character on either side. The flag says whether the character before the current
  position is a word character.
\<close>

fun findall_numbers :: "bool \<Rightarrow> string \<Rightarrow> string list" where
  "findall_numbers prev_word [] = []"
| "findall_numbers prev_word (c # s) =
     (if is_digit c \<and> \<not> prev_word
         \<and> (case dropWhile is_digit s of [] \<Rightarrow> True | d # _ \<Rightarrow> \<not> is_word d)
      then (c # takeWhile is_digit s) # findall_numbers True s
      else findall_numbers (is_word c) s)"

text \<open>Lines 468-496, from \<^verbatim>\<open>response.text\<close> to the list \<^verbatim>\<open>numbers\<close>.\<close>

definition extract_numbers :: "string \<Rightarrow> string list" where
  "extract_numbers response_text =
     (let ranking_text = py_strip response_text;
          cleaned_text = py_strip ranking_text;
          cleaned_text = remove_prefix cleaned_text;
          cleaned_text = remove_brackets cleaned_text;
          cleaned_text = (case search_number_run cleaned_text of
                            Some number_match \<Rightarrow> number_match | None \<Rightarrow> cleaned_text)
      in findall_numbers False cleaned_text)"

text \<open>\<^verbatim>\<open>int(n)\<close> on a string of decimal digits (no bound on the number of digits).\<close>

definition digit_value :: "char \<Rightarrow> int" where
  "digit_value c = int (length (takeWhile (\<lambda>d. d \<noteq> c) ''0123456789''))"

definition py_int :: "string \<Rightarrow> int" where
  "py_int n = foldl (\<lambda>a c. 10 * a + digit_value c) 0 n"

text \<open>Lines 501-507: 1-based numbers to 0-based indices, in range, first occurrence kept.\<close>

fun ranking_loop :: "nat \<Rightarrow> string list \<Rightarrow> int list \<Rightarrow> int set \<Rightarrow> int list" where
  "ranking_loop len_candidates [] ranking_indices seen_indices = ranking_indices"
| "ranking_loop len_candidates (n # numbers) ranking_indices seen_indices =
     (let idx = py_int n - 1
      in if 0 \<le> idx \<and> idx < int len_candidates \<and> idx \<notin> seen_indices
         then ranking_loop len_candidates numbers (ranking_indices @ [idx])
                (insert idx seen_indices)
         else ranking_loop len_candidates numbers ranking_indices seen_indices)"

definition parse_ranking :: "string \<Rightarrow> nat \<Rightarrow> int list" where
  "parse_ranking response_text len_candidates =
     ranking_loop len_candidates (extract_numbers response_text) [] {}"

section \<open>The reranker (\<^verbatim>\<open>_rerank_with_gemini\<close>, lines 362-553)\<close>

text \<open>
  The language model is outside the repository. One request makes at most one call, whose
  outcome is a timeout of \<^verbatim>\<open>future.result\<close>, any other exception (of the model
  constructor, of the call or of \<^verbatim>\<open>response.text\<close>), or the text of the answer.
\<close>

datatype llm_result = LLMTimeout | LLMError | LLMText string

text \<open>
  Lines 391-412 build one block of the prompt per candidate, before the call. The text
  itself only reaches the model; what matters here is whether building it raises:
  \<^verbatim>\<open>len(description)\<close> and \<^verbatim>\<open>len(skills)\<close> are taken of a truthy value that is not
  the string \<^verbatim>\<open>'nan'\<close>, and the similarity is formatted with \<^verbatim>\<open>:.3f\<close>. An
  exception there is caught by the outer handler (line 549).
\<close>

definition len_raises :: "pyval \<Rightarrow> bool" where
  "len_raises v \<longleftrightarrow> truthy v \<and> v \<noteq> PStr ''nan'' \<and> (case v of PStr s \<Rightarrow> False | _ \<Rightarrow> True)"

definition candidate_info_raises :: "pydict \<Rightarrow> bool" where
  "candidate_info_raises candidate \<longleftrightarrow>
     len_raises (dict_get candidate ''Description'' (dict_get candidate ''description'' (PStr [])))
     \<or> len_raises (dict_get candidate ''Skills'' (dict_get candidate ''skills'' (PStr [])))
     \<or> (case dict_get candidate ''similarity'' (PNum 0) of PNum r \<Rightarrow> False | _ \<Rightarrow> True)"

text \<open>
  Lines 518-521 and 527-530: the copy of a candidate with its three new keys. Positions
  and scores are Python integers.
\<close>

definition rerank_tags :: "pydict \<Rightarrow> int \<Rightarrow> int \<Rightarrow> pydict" where
  "rerank_tags candidate score pos =
     candidate(''rerank_score'' \<mapsto> PNum (of_int score),
               ''rerank_position'' \<mapsto> PNum (of_int pos),
               ''original_similarity'' \<mapsto> dict_get candidate ''similarity'' (PNum 0))"

text \<open>Lines 515-522: \<^verbatim>\<open>for rank_pos, orig_idx in enumerate(ranking_indices, 1)\<close>.\<close>

definition ranked_part :: "pydict list \<Rightarrow> int list \<Rightarrow> pydict list" where
  "ranked_part candidates ranking_indices =
     map (\<lambda>(rank_pos, orig_idx).
            rerank_tags (candidates ! nat orig_idx)
              (int (length ranking_indices) - rank_pos + 1) rank_pos)
         (filter (\<lambda>(rank_pos, orig_idx). 0 \<le> orig_idx \<and> orig_idx < int (length candidates))
            (zip (map (\<lambda>i. int i + 1) [0..<length ranking_indices]) ranking_indices))"

text \<open>Lines 525-531: \<^verbatim>\<open>for i, candidate in enumerate(candidates)\<close>.\<close>

definition unranked_part :: "pydict list \<Rightarrow> int list \<Rightarrow> pydict list" where
  "unranked_part candidates ranking_indices =
     map (\<lambda>(i, candidate). rerank_tags candidate 0 (int (length ranking_indices) + 1))
         (filter (\<lambda>(i, candidate). i \<notin> set ranking_indices)
            (zip (map int [0..<length candidates]) candidates))"

definition rerank_with_gemini :: "llm_result \<Rightarrow> string \<Rightarrow> pydict list \<Rightarrow> int \<Rightarrow> pydict list" where
  "rerank_with_gemini llm query candidates top_k =
     (if list_ex candidate_info_raises candidates
      then py_take top_k (sorted_by_similarity candidates)
      else case llm of
        LLMTimeout \<Rightarrow> py_take top_k (sorted_by_similarity candidates)
      | LLMError \<Rightarrow> py_take top_k (sorted_by_similarity candidates)
      | LLMText response_text \<Rightarrow>
          (let numbers = extract_numbers response_text
           in if numbers \<noteq> [] then
                (let ranking_indices = ranking_loop (length candidates) numbers [] {}
                 in if int (length ranking_indices) \<ge> min top_k (int (length candidates))
                    then py_take top_k (ranked_part candidates ranking_indices
                                          @ unranked_part candidates ranking_indices)
                    else py_take top_k (sorted_by_similarity candidates))
              else py_take top_k (sorted_by_similarity candidates)))"

section \<open>The type balancer (\<^verbatim>\<open>_balance_types_light\<close>, lines 225-276)\<close>

text \<open>
  \<^verbatim>\<open>v.upper()\<close> exists on strings only: on \<^verbatim>\<open>None\<close> or a number it raises
  \<^verbatim>\<open>AttributeError\<close>, which nothing in \<^verbatim>\<open>recommend\<close> catches.
\<close>

definition upper_of :: "pyval \<Rightarrow> exn + string" where
  "upper_of v = (case v of PStr s \<Rightarrow> Inr (py_upper s) | _ \<Rightarrow> Inl AttributeError)"

text \<open>Lines 234-238.\<close>

fun types_in_results :: "pydict list \<Rightarrow> exn + string set" where
  "types_in_results [] = Inr {}"
| "types_in_results (r # rs) =
     (case upper_of (dict_get r ''Test Type'' (dict_get r ''type'' (PStr []))) of
        Inl e \<Rightarrow> Inl e
      | Inr test_type \<Rightarrow>
          (case types_in_results rs of
             Inl e \<Rightarrow> Inl e
           | Inr types \<Rightarrow> Inr (if test_type \<noteq> [] then insert test_type types else types)))"

text \<open>
  \<^verbatim>\<open>r.get('rerank_score', 0)\<close>; the key is written by the reranker only, with an
  integer.
\<close>

definition rerank_score_of :: "pydict \<Rightarrow> real" where
  "rerank_score_of r = (case dict_get r ''rerank_score'' (PNum 0) of PNum x \<Rightarrow> x | _ \<Rightarrow> 0)"

definition has_rerank_scores :: "pydict list \<Rightarrow> bool" where
  "has_rerank_scores results = list_ex (\<lambda>r. rerank_score_of r > 0) results"

definition role_keywords :: "string list" where
  "role_keywords =
     [''engineer'', ''developer'', ''programmer'', ''manager'', ''lead'', ''senior'', ''analyst'']"

definition is_role_query :: "string \<Rightarrow> bool" where
  "is_role_query query = list_ex (\<lambda>keyword. sublist keyword (py_lower query)) role_keywords"

text \<open>
  Lines 260-262. The comprehension calls \<^verbatim>\<open>.upper()\<close> on the \<^verbatim>\<open>'Test Type'\<close> of
  every candidate of the pool; \<^verbatim>\<open>r not in reranked_results\<close> compares dictionaries by
  value.
\<close>

fun p_candidates_of :: "pydict list \<Rightarrow> pydict list \<Rightarrow> exn + pydict list" where
  "p_candidates_of [] reranked_results = Inr []"
| "p_candidates_of (r # rs) reranked_results =
     (case upper_of (dict_get r ''Test Type'' (PStr [])) of
        Inl e \<Rightarrow> Inl e
      | Inr test_type \<Rightarrow>
          (case p_candidates_of rs reranked_results of
             Inl e \<Rightarrow> Inl e
           | Inr ps \<Rightarrow>
               Inr (if (test_type = ''P'' \<or> test_type = ''H'') \<and> r \<notin> set reranked_results
                    then r # ps else ps)))"

definition balance_types_light ::
  "pydict list \<Rightarrow> pydict list \<Rightarrow> string \<Rightarrow> int \<Rightarrow> exn + pydict list" where
  "balance_types_light reranked_results all_candidates query top_k =
     (case types_in_results reranked_results of
        Inl e \<Rightarrow> Inl e
      | Inr types \<Rightarrow>
          if has_rerank_scores reranked_results then Inr reranked_results
          else if ''K'' \<in> types \<and> ''P'' \<in> types then Inr reranked_results
          else if is_role_query query \<and> ''P'' \<notin> types then
            (case p_candidates_of all_candidates reranked_results of
               Inl e \<Rightarrow> Inl e
             | Inr p_candidates \<Rightarrow>
                 if length reranked_results \<ge> 8 \<and> p_candidates \<noteq> [] then
                   (let num_to_add = min 2 (length p_candidates);
                        p_sorted = sorted_by_similarity p_candidates
                    in Inr (py_take (top_k - int num_to_add) reranked_results
                            @ take num_to_add p_sorted))
                 else Inr reranked_results)
          else Inr reranked_results)"

section \<open>The orchestrator (\<^verbatim>\<open>recommend\<close>, lines 148-223)\<close>

text \<open>
  The vector index is outside the repository: \<^verbatim>\<open>self.index.search(q, k)\<close>, after the
  normalisation of the query vector, is a function from the vector and \<open>k\<close> to the list
  \<^verbatim>\<open>zip(similarities[0], indices[0])\<close>. \<^verbatim>\<open>self.index\<close> is \<^verbatim>\<open>None\<close> until
  \<^verbatim>\<open>load_index\<close> has run.
\<close>

type_synonym vector_index = "real list \<Rightarrow> int \<Rightarrow> (real \<times> int) list"

text \<open>Lines 210-223: balancing, the sort when no rerank score is there, the final slice.\<close>

definition balance_and_truncate ::
  "pydict list \<Rightarrow> pydict list \<Rightarrow> string \<Rightarrow> int \<Rightarrow> bool \<Rightarrow> exn + pydict list" where
  "balance_and_truncate reranked_results all_candidates query top_k balance_types =
     (if balance_types \<and> length all_candidates > length reranked_results then
        (case balance_types_light reranked_results all_candidates query top_k of
           Inl e \<Rightarrow> Inl e
         | Inr balanced_results \<Rightarrow>
             Inr (py_take top_k
                    (if has_rerank_scores balanced_results then balanced_results
                     else sorted_by_similarity balanced_results)))
      else Inr (py_take top_k reranked_results))"

definition recommend ::
  "vector_index option \<Rightarrow> pydict list \<Rightarrow> embedding_provider \<Rightarrow> llm_result \<Rightarrow>
   string \<Rightarrow> int \<Rightarrow> bool \<Rightarrow> bool \<Rightarrow> exn + pydict list" where
  "recommend index metadata provider llm query top_k balance_types use_reranking =
     (case index of
        None \<Rightarrow> Inl ValueError
      | Some search \<Rightarrow>
          (case generate_query_embedding EMBEDDING_DIMENSION provider query of
             Inl e \<Rightarrow> Inl e
           | Inr query_embedding \<Rightarrow>
               (let search_k = (if use_reranking then top_k * 5
                                else if balance_types then top_k * 3 else top_k)
                in case collect_candidates metadata (search query_embedding search_k) of
                     Inl e \<Rightarrow> Inl e
                   | Inr all_candidates \<Rightarrow>
                       (let candidates_for_reranking =
                              py_take (min (top_k * 2) (int (length all_candidates)))
                                all_candidates;
                            reranked_results =
                              (if use_reranking \<and> length candidates_for_reranking > 0
                               then rerank_with_gemini llm query candidates_for_reranking top_k
                               else py_take top_k
                                      (sorted_by_similarity candidates_for_reranking))
                        in balance_and_truncate reranked_results all_candidates query top_k
                             balance_types))))"

section \<open>Specification-side notions for candidate collection\<close>

text \<open>
  The candidate that one search hit yields when its offset passes the guard and the
  list access, and the candidates of all hits in search order, before deduplication.
\<close>


definition hit_candidate :: "pydict list \<Rightarrow> real \<times> int \<Rightarrow> pydict" where
  "hit_candidate metadata h =
     (case h of (similarity, idx) \<Rightarrow>
        (metadata ! nat (if idx < 0 then int (length metadata) + idx else idx))
          (''similarity'' \<mapsto> PNum similarity))"

definition hit_candidates :: "pydict list \<Rightarrow> (real \<times> int) list \<Rightarrow> pydict list" where
  "hit_candidates metadata hits =
     map (hit_candidate metadata) (filter (\<lambda>h. snd h < int (length metadata)) hits)"

fun first_per_key :: "pyval set \<Rightarrow> pydict list \<Rightarrow> pydict list" where
  "first_per_key seen [] = []"
| "first_per_key seen (c # cs) =
     (if url_key c \<in> seen then first_per_key seen cs
      else c # first_per_key (insert (url_key c) seen) cs)"


section \<open>Specification-side notions for the type balancer\<close>

text \<open>
  The category tag the balancer reads on a result (\<^verbatim>\<open>'Test Type'\<close>, else
  \<^verbatim>\<open>'type'\<close>) and the one it reads on a candidate of the pool (\<^verbatim>\<open>'Test Type'\<close>
  only); whether a value is a string, so that \<^verbatim>\<open>.upper()\<close> is defined on it.
\<close>

definition type_tag :: "pydict \<Rightarrow> pyval" where
  "type_tag r = dict_get r ''Test Type'' (dict_get r ''type'' (PStr []))"

definition pool_tag :: "pydict \<Rightarrow> pyval" where
  "pool_tag r = dict_get r ''Test Type'' (PStr [])"

fun is_str :: "pyval \<Rightarrow> bool" where
  "is_str (PStr s) = True"
| "is_str v = False"

text \<open>
  The behavioural candidates of the pool that are not among the results: tag \<open>P\<close> or
  \<open>H\<close> after upper-casing.
\<close>

definition behavioral_pool :: "pydict list \<Rightarrow> pydict list \<Rightarrow> pydict list" where
  "behavioral_pool all_candidates results =
     filter (\<lambda>r. (upper_of (pool_tag r) = Inr ''P'' \<or> upper_of (pool_tag r) = Inr ''H'')
                  \<and> r \<notin> set results) all_candidates"


text \<open>A catalogue record with a URL and a category, and its similarity, for worked examples.\<close>

definition catalog_candidate :: "string \<Rightarrow> string \<Rightarrow> real \<Rightarrow> pydict" where
  "catalog_candidate url test_type similarity =
     [''URL'' \<mapsto> PStr url, ''Test Type'' \<mapsto> PStr test_type,
      ''similarity'' \<mapsto> PNum similarity]"

section \<open>Worked examples\<close>




text \<open>
  A catalogue of five records whose first record has an empty \<^verbatim>\<open>'Test Type'\<close> cell,
  an index over it that answers every query with the same order, and a provider whose
  calls succeed.
\<close>

definition example_metadata :: "pydict list" where
  "example_metadata =
     [[''URL'' \<mapsto> PStr ''a'', ''Test Type'' \<mapsto> PNone],
      [''URL'' \<mapsto> PStr ''b'', ''Test Type'' \<mapsto> PStr ''K''],
      [''URL'' \<mapsto> PStr ''c'', ''Test Type'' \<mapsto> PStr ''K''],
      [''URL'' \<mapsto> PStr ''d'', ''Test Type'' \<mapsto> PStr ''K''],
      [''URL'' \<mapsto> PStr ''e'', ''Test Type'' \<mapsto> PStr ''P'']]"

definition example_index :: vector_index where
  "example_index query_embedding k =
     take (nat k) [(0.9, 0), (0.7, 1), (0.3, 2), (0.1, 3), (0, 4)]"

definition example_provider :: embedding_provider where
  "example_provider =
     \<lparr>embed_content = (\<lambda>t. Inr [1]), model_embed_content = (\<lambda>t. Inr [1]),
      rest_embed_content = (\<lambda>t. Inr [1])\<rparr>"

section \<open>Candidate collection: proofs\<close>

lemma collect_loop_refines:
  "\<forall>h\<in>set hits. - int (length metadata) \<le> snd h \<Longrightarrow>
   collect_loop metadata hits acc seen =
     Inr (acc @ first_per_key seen (hit_candidates metadata hits))"
proof (induction hits arbitrary: acc seen)
  case Nil
  then show ?case by (simp add: hit_candidates_def)
next
  case (Cons h hits)
  obtain s i where h: "h = (s, i)" by (cases h)
  from Cons.prems have rest: "\<forall>h\<in>set hits. - int (length metadata) \<le> snd h"
    and lo: "- int (length metadata) \<le> i" by (auto simp: h)
  show ?case
  proof (cases "i \<ge> int (length metadata)")
    case True
    then show ?thesis using Cons.IH[OF rest] by (simp add: h hit_candidates_def)
  next
    case False
    with lo have "py_index metadata i =
        Inr (metadata ! nat (if i < 0 then int (length metadata) + i else i))"
      by (auto simp: py_index_def Let_def)
    with False show ?thesis using Cons.IH[OF rest]
      by (simp add: h hit_candidates_def hit_candidate_def Let_def)
  qed
qed

lemma first_per_key_keys:
  "url_key ` set (first_per_key seen cs) = url_key ` set cs - seen"
  by (induction cs arbitrary: seen) auto

lemma first_per_key_distinct: "distinct (map url_key (first_per_key seen cs))"
proof (induction cs arbitrary: seen)
  case Nil
  then show ?case by simp
next
  case (Cons a cs)
  have "url_key a \<notin> url_key ` set (first_per_key (insert (url_key a) seen) cs)"
    by (simp add: first_per_key_keys)
  with Cons.IH show ?case by simp
qed

lemma first_per_key_subseq: "subseq (first_per_key seen cs) cs"
  by (induction cs arbitrary: seen) auto

lemma first_per_key_find:
  "c \<in> set (first_per_key seen cs) \<Longrightarrow> find (\<lambda>h. url_key h = url_key c) cs = Some c"
proof (induction cs arbitrary: seen)
  case Nil
  then show ?case by simp
next
  case (Cons a cs)
  show ?case
  proof (cases "url_key a \<in> seen")
    case True
    with Cons.prems have m: "c \<in> set (first_per_key seen cs)" by simp
    then have "url_key c \<in> url_key ` set (first_per_key seen cs)" by blast
    then have "url_key c \<notin> seen" by (simp add: first_per_key_keys)
    with True have "url_key a \<noteq> url_key c" by auto
    with Cons.IH[OF m] show ?thesis by simp
  next
    case False
    with Cons.prems consider "c = a" | "c \<in> set (first_per_key (insert (url_key a) seen) cs)"
      by auto
    then show ?thesis
    proof cases
      case 1
      then show ?thesis by simp
    next
      case 2
      then have "url_key c \<in> url_key ` set (first_per_key (insert (url_key a) seen) cs)" by blast
      then have "url_key a \<noteq> url_key c" by (auto simp: first_per_key_keys)
      with Cons.IH[OF 2] show ?thesis by simp
    qed
  qed
qed

lemma first_per_key_set: "set (first_per_key seen cs) \<subseteq> set cs"
  by (induction cs arbitrary: seen) auto

lemma first_per_key_sorted:
  "sorted_wrt R cs \<Longrightarrow> sorted_wrt R (first_per_key seen cs)"
proof (induction cs arbitrary: seen)
  case Nil
  then show ?case by simp
next
  case (Cons a cs)
  then show ?case using first_per_key_set[of "insert (url_key a) seen" cs] by auto
qed



lemma hit_candidates_sorted:
  "sorted_wrt (\<lambda>a b. fst a \<ge> fst b) hits \<Longrightarrow>
   sorted_wrt (\<lambda>a b. similarity_of a \<ge> similarity_of b) (hit_candidates metadata hits)"
  unfolding hit_candidates_def
  by (induction hits)
     (auto simp: hit_candidate_def similarity_of_def dict_get_def split: prod.splits)


lemma collect_candidates_refines:
  assumes "\<forall>h\<in>set hits. - int (length metadata) \<le> snd h"
  shows "collect_candidates metadata hits = Inr (first_per_key {} (hit_candidates metadata hits))"
  using collect_loop_refines[OF assms, of "[]" "{}"] by (simp add: collect_candidates_def)

text \<open>
  Claim C7: an offset that refers to no metadata record is skipped without raising, and
  only offsets of actual records produce a candidate. The guard covers the offsets at or
  above the length only. The filler offset \<open>-1\<close> that the index returns when it holds
  fewer than \<open>k\<close> vectors passes the guard and is read as \<^verbatim>\<open>metadata[-1]\<close>: it
  produces a candidate from the last record, and raises \<^verbatim>\<open>IndexError\<close> on an empty
  metadata list.
\<close>

theorem collect_negative_offset_not_skipped:
  "collect_candidates
     [[''URL'' \<mapsto> PStr ''u0''], [''URL'' \<mapsto> PStr ''u1'']]
     [(0.9, 0), (- 1, - 1)]
   = Inr [[''URL'' \<mapsto> PStr ''u0'', ''similarity'' \<mapsto> PNum 0.9],
          [''URL'' \<mapsto> PStr ''u1'', ''similarity'' \<mapsto> PNum (- 1)]]
   \<and> collect_candidates [] [(0, - 1)] = Inl IndexError"
  by (simp add: collect_candidates_def py_index_def url_key_def py_or_def dict_get_def)

text \<open>
  Claim C8: when no offset is below \<open>- len(metadata)\<close>, collection returns; the
  candidates are a subsequence of the hits, no two have the same url key, every url key of
  a hit is kept, each kept candidate is the first hit with its key, and the candidates are
  in similarity-descending order when the hits are.
\<close>

theorem collect_first_occurrence_wins:
  assumes "\<forall>h\<in>set hits. - int (length metadata) \<le> snd h"
  shows "\<exists>cs. collect_candidates metadata hits = Inr cs
      \<and> subseq cs (hit_candidates metadata hits)
      \<and> distinct (map url_key cs)
      \<and> url_key ` set cs = url_key ` set (hit_candidates metadata hits)
      \<and> (\<forall>c\<in>set cs. find (\<lambda>h. url_key h = url_key c) (hit_candidates metadata hits) = Some c)
      \<and> (sorted_wrt (\<lambda>a b. fst a \<ge> fst b) hits \<longrightarrow>
           sorted_wrt (\<lambda>a b. similarity_of a \<ge> similarity_of b) cs)"
proof -
  let ?hs = "hit_candidates metadata hits"
  let ?cs = "first_per_key {} ?hs"
  have "collect_candidates metadata hits = Inr ?cs"
    by (rule collect_candidates_refines[OF assms])
  moreover have "subseq ?cs ?hs" by (rule first_per_key_subseq)
  moreover have "distinct (map url_key ?cs)" by (rule first_per_key_distinct)
  moreover have "url_key ` set ?cs = url_key ` set ?hs" by (simp add: first_per_key_keys)
  moreover have "\<forall>c\<in>set ?cs. find (\<lambda>h. url_key h = url_key c) ?hs = Some c"
    by (blast intro: first_per_key_find)
  moreover have "sorted_wrt (\<lambda>a b. fst a \<ge> fst b) hits \<longrightarrow>
      sorted_wrt (\<lambda>a b. similarity_of a \<ge> similarity_of b) ?cs"
    by (blast intro: first_per_key_sorted hit_candidates_sorted)
  ultimately show ?thesis by blast
qed

theorem collect_first_occurrence_wins_witness:
  "list_all (\<lambda>h. - int (length [[''URL'' \<mapsto> PStr ''a''], [''URL'' \<mapsto> PStr ''b''],
                                   [''url'' \<mapsto> PStr ''a'']]) \<le> snd h)
       [(0.9::real, 0::int), (0.8, 1), (0.7, 2)]
   \<and> sorted_wrt (\<lambda>a b. fst a \<ge> fst b) [(0.9::real, 0::int), (0.8, 1), (0.7, 2)]
   \<and> (\<exists>cs. collect_candidates
          [[''URL'' \<mapsto> PStr ''a''], [''URL'' \<mapsto> PStr ''b''], [''url'' \<mapsto> PStr ''a'']]
          [(0.9, 0), (0.8, 1), (0.7, 2)] = Inr cs
        \<and> cs = [[''URL'' \<mapsto> PStr ''a'', ''similarity'' \<mapsto> PNum 0.9],
                 [''URL'' \<mapsto> PStr ''b'', ''similarity'' \<mapsto> PNum 0.8]]
        \<and> distinct (map url_key cs)
        \<and> sorted_wrt (\<lambda>a b. similarity_of a \<ge> similarity_of b) cs)"
proof -
  let ?M = "[[''URL'' \<mapsto> PStr ''a''], [''URL'' \<mapsto> PStr ''b''], [''url'' \<mapsto> PStr ''a'']]"
  let ?H = "[(0.9::real, 0::int), (0.8, 1), (0.7, 2)]"
  have h: "\<forall>h\<in>set ?H. - int (length ?M) \<le> snd h" by simp
  have s: "sorted_wrt (\<lambda>a b. fst a \<ge> fst b) ?H" by simp
  have v: "collect_candidates ?M ?H =
      Inr [[''URL'' \<mapsto> PStr ''a'', ''similarity'' \<mapsto> PNum 0.9],
           [''URL'' \<mapsto> PStr ''b'', ''similarity'' \<mapsto> PNum 0.8]]"
    by (simp add: collect_candidates_def py_index_def url_key_def py_or_def dict_get_def)
  from collect_first_occurrence_wins[OF h] s obtain cs
    where c: "collect_candidates ?M ?H = Inr cs" and d: "distinct (map url_key cs)"
      and o: "sorted_wrt (\<lambda>a b. similarity_of a \<ge> similarity_of b) cs"
    by blast
  from c v have e: "cs = [[''URL'' \<mapsto> PStr ''a'', ''similarity'' \<mapsto> PNum 0.9],
                          [''URL'' \<mapsto> PStr ''b'', ''similarity'' \<mapsto> PNum 0.8]]"
    by simp
  have "list_all (\<lambda>h. - int (length ?M) \<le> snd h) ?H" by simp
  with s c e d o show ?thesis by blast
qed




section \<open>The similarity fallback\<close>




lemma sorted_by_similarity_length [simp]: "length (sorted_by_similarity cs) = length cs"
  by (simp add: sorted_by_similarity_def)

lemma sorted_by_similarity_set [simp]: "set (sorted_by_similarity cs) = set cs"
  by (simp add: sorted_by_similarity_def)


lemma rerank_llm_failure:
  "llm = LLMTimeout \<or> llm = LLMError \<Longrightarrow>
   rerank_with_gemini llm query candidates top_k = py_take top_k (sorted_by_similarity candidates)"
  by (auto simp: rerank_with_gemini_def)




section \<open>The parsed ranking\<close>

lemma ranking_loop_invariant:
  "seen = set acc \<Longrightarrow> distinct acc \<Longrightarrow> \<forall>i\<in>set acc. 0 \<le> i \<and> i < int n \<Longrightarrow>
   distinct (ranking_loop n numbers acc seen)
   \<and> (\<forall>i\<in>set (ranking_loop n numbers acc seen). 0 \<le> i \<and> i < int n)"
proof (induction numbers arbitrary: acc seen)
  case Nil
  then show ?case by simp
next
  case (Cons num numbers)
  show ?case
  proof (cases "0 \<le> py_int num - 1 \<and> py_int num - 1 < int n \<and> py_int num - 1 \<notin> seen")
    case True
    have "distinct (ranking_loop n numbers (acc @ [py_int num - 1]) (insert (py_int num - 1) seen))
        \<and> (\<forall>i\<in>set (ranking_loop n numbers (acc @ [py_int num - 1])
                      (insert (py_int num - 1) seen)). 0 \<le> i \<and> i < int n)"
      using Cons.prems True by (intro Cons.IH) auto
    with True show ?thesis by (simp add: Let_def)
  next
    case False
    have "distinct (ranking_loop n numbers acc seen)
        \<and> (\<forall>i\<in>set (ranking_loop n numbers acc seen). 0 \<le> i \<and> i < int n)"
      using Cons.prems by (intro Cons.IH) auto
    with False show ?thesis by (auto simp: Let_def)
  qed
qed

lemma parse_ranking_distinct: "distinct (parse_ranking t n)"
  using ranking_loop_invariant[of "{}" "[]" n "extract_numbers t"]
  by (simp add: parse_ranking_def)

lemma parse_ranking_in_range: "i \<in> set (parse_ranking t n) \<Longrightarrow> 0 \<le> i \<and> i < int n"
  using ranking_loop_invariant[of "{}" "[]" n "extract_numbers t"]
  by (simp add: parse_ranking_def)

section \<open>A text without digits has no numbers\<close>







section \<open>Fallback on a short or empty parse\<close>

lemma rerank_text_unfold:
  "rerank_with_gemini (LLMText t) Q C k =
     (if list_ex candidate_info_raises C \<or> extract_numbers t = []
         \<or> int (length (parse_ranking t (length C))) < min k (int (length C))
      then py_take k (sorted_by_similarity C)
      else py_take k (ranked_part C (parse_ranking t (length C))
                      @ unranked_part C (parse_ranking t (length C))))"
proof (cases "list_ex candidate_info_raises C \<or> extract_numbers t = []")
  case True
  then show ?thesis by (auto simp: rerank_with_gemini_def)
next
  case False
  show ?thesis
  proof (cases "int (length (parse_ranking t (length C))) < min k (int (length C))")
    case True
    then have "\<not> min k (int (length C))
                \<le> int (length (ranking_loop (length C) (extract_numbers t) [] {}))"
      by (simp only: parse_ranking_def not_le)
    with False True show ?thesis
      by (simp add: rerank_with_gemini_def Let_def del: min_le_iff_disj min_less_iff_conj)
  next
    case nl: False
    then have "min k (int (length C))
                \<le> int (length (ranking_loop (length C) (extract_numbers t) [] {}))"
      by (simp only: parse_ranking_def not_less)
    with False nl show ?thesis
      by (simp add: rerank_with_gemini_def Let_def parse_ranking_def
          del: min_le_iff_disj min_less_iff_conj)
  qed
qed



section \<open>The reranked list\<close>

lemma zip_positions:
  "zip (map f [0..<length xs]) xs = map (\<lambda>j. (f j, xs ! j)) [0..<length xs]"
  by (rule nth_equalityI) auto

lemma ranked_part_positions:
  assumes "\<forall>i\<in>set ris. 0 \<le> i \<and> i < int (length C)"
  shows "ranked_part C ris =
     map (\<lambda>j. rerank_tags (C ! nat (ris ! j))
                (int (length ris) - (int j + 1) + 1) (int j + 1))
         [0..<length ris]"
proof -
  let ?z = "map (\<lambda>j. (int j + 1, ris ! j)) [0..<length ris]"
  have z: "zip (map (\<lambda>i. int i + 1) [0..<length ris]) ris = ?z"
    by (rule zip_positions)
  have "\<forall>p\<in>set ?z. (case p of (rank_pos, orig_idx) \<Rightarrow>
          0 \<le> orig_idx \<and> orig_idx < int (length C))"
    using assms by auto
  then have "filter (\<lambda>(rank_pos, orig_idx). 0 \<le> orig_idx \<and> orig_idx < int (length C)) ?z = ?z"
    by (simp only: filter_True)
  then show ?thesis
    unfolding ranked_part_def z by (simp add: comp_def)
qed

lemma unranked_part_positions:
  "unranked_part C ris =
     map (\<lambda>i. rerank_tags (C ! i) 0 (int (length ris) + 1))
         (filter (\<lambda>i. int i \<notin> set ris) [0..<length C])"
proof -
  have z: "zip (map int [0..<length C]) C = map (\<lambda>j. (int j, C ! j)) [0..<length C]"
    by (rule zip_positions)
  show ?thesis
    unfolding unranked_part_def z by (simp add: filter_map comp_def)
qed











section \<open>The query embedding\<close>





section \<open>The type balancer\<close>

lemma upper_of_str: "is_str v \<Longrightarrow> \<exists>s. v = PStr s \<and> upper_of v = Inr (py_upper s)"
  by (cases v) (simp_all add: upper_of_def)

lemma upper_of_not_str: "\<not> is_str v \<Longrightarrow> upper_of v = Inl AttributeError"
  by (cases v) (simp_all add: upper_of_def)


lemma types_in_results_not_string:
  "\<exists>r\<in>set rs. \<not> is_str (type_tag r) \<Longrightarrow> types_in_results rs = Inl AttributeError"
proof (induction rs)
  case Nil
  then show ?case by simp
next
  case (Cons r rs)
  show ?case
  proof (cases "is_str (type_tag r)")
    case True
    with Cons.prems have "\<exists>r\<in>set rs. \<not> is_str (type_tag r)" by simp
    then have "types_in_results rs = Inl AttributeError" by (rule Cons.IH)
    moreover from True obtain s where "upper_of (type_tag r) = Inr s"
      using upper_of_str[of "type_tag r"] by auto
    ultimately show ?thesis by (simp add: type_tag_def)
  next
    case False
    then show ?thesis using upper_of_not_str[of "type_tag r"] by (simp add: type_tag_def)
  qed
qed









section \<open>Worked examples for the balancer\<close>

lemma catalog_candidate_tags [simp]:
  "type_tag (catalog_candidate u t s) = PStr t"
  "pool_tag (catalog_candidate u t s) = PStr t"
  "similarity_of (catalog_candidate u t s) = s"
  "rerank_score_of (catalog_candidate u t s) = 0"
  "catalog_candidate u t s ''URL'' = Some (PStr u)"
  "catalog_candidate u t s ''rerank_score'' = None"
  by (simp_all add: catalog_candidate_def type_tag_def pool_tag_def similarity_of_def
      rerank_score_of_def dict_get_def)

lemma zero_score_tags [simp]:
  "type_tag (c(''rerank_score'' \<mapsto> v)) = type_tag c"
  "pool_tag (c(''rerank_score'' \<mapsto> v)) = pool_tag c"
  "similarity_of (c(''rerank_score'' \<mapsto> v)) = similarity_of c"
  "rerank_score_of (c(''rerank_score'' \<mapsto> PNum x)) = x"
  by (simp_all add: type_tag_def pool_tag_def similarity_of_def rerank_score_of_def dict_get_def)

lemma differ_by_score: "c ''rerank_score'' \<noteq> c' ''rerank_score'' \<Longrightarrow> c \<noteq> c'"
  by auto

lemma upper_K: "py_upper ''K'' = ''K''"
  by code_simp

lemma upper_P: "py_upper ''P'' = ''P''"
  by code_simp


lemma upper_of_K [simp]: "upper_of (PStr ''K'') = Inr ''K''"
  by (simp add: upper_of_def upper_K)

lemma upper_of_P [simp]: "upper_of (PStr ''P'') = Inr ''P''"
  by (simp add: upper_of_def upper_P)


lemma catalog_candidate_eq [simp]:
  "catalog_candidate u t s = catalog_candidate u' t' s' \<longleftrightarrow> u = u' \<and> t = t' \<and> s = s'"
proof
  assume e: "catalog_candidate u t s = catalog_candidate u' t' s'"
  from fun_cong[OF e, of "''URL''"] fun_cong[OF e, of "''Test Type''"]
    fun_cong[OF e, of "''similarity''"]
  show "u = u' \<and> t = t' \<and> s = s'" by (simp add: catalog_candidate_def)
qed simp

lemma scored_neq_catalog [simp]:
  "c(''rerank_score'' \<mapsto> v) \<noteq> catalog_candidate u t s"
  "catalog_candidate u t s \<noteq> c(''rerank_score'' \<mapsto> v)"
  using differ_by_score[of "c(''rerank_score'' \<mapsto> v)" "catalog_candidate u t s"]
  by auto





section \<open>What \<^verbatim>\<open>recommend\<close> returns when it returns\<close>

lemma py_take_is_take: "\<exists>j. py_take k xs = take j xs"
  by (auto simp: py_take_def)

lemma py_take_length: "0 \<le> k \<Longrightarrow> length (py_take k xs) \<le> nat k"
  by (simp add: py_take_def)

lemma py_take_set: "set (py_take k xs) \<subseteq> set xs"
  using py_take_is_take[of k xs] by (auto dest: in_set_takeD)

lemma py_take_distinct_keys:
  "distinct (map f xs) \<Longrightarrow> distinct (map f (py_take k xs))"
proof -
  assume d: "distinct (map f xs)"
  obtain j where "py_take k xs = take j xs" using py_take_is_take by blast
  then show ?thesis using d by (simp add: take_map[symmetric] distinct_take)
qed

lemma sorted_by_similarity_distinct_keys:
  "distinct (map f cs) \<Longrightarrow> distinct (map f (sorted_by_similarity cs))"
proof -
  assume d: "distinct (map f cs)"
  have "mset (map f (sorted_by_similarity cs)) = mset (map f cs)"
    by (simp add: sorted_by_similarity_def)
  then show ?thesis using d by (metis mset_eq_imp_distinct_iff)
qed

lemma collect_loop_distinct:
  "collect_loop metadata hits acc seen = Inr cs \<Longrightarrow> seen = url_key ` set acc \<Longrightarrow>
   distinct (map url_key acc) \<Longrightarrow> distinct (map url_key cs)"
proof (induction hits arbitrary: acc seen)
  case Nil
  then show ?case by simp
next
  case (Cons h hits)
  obtain s i where h: "h = (s, i)" by (cases h)
  show ?case
  proof (cases "i \<ge> int (length metadata)")
    case True
    with Cons.prems have "collect_loop metadata hits acc seen = Inr cs" by (simp add: h)
    then show ?thesis using Cons.prems(2,3) by (rule Cons.IH)
  next
    case False
    show ?thesis
    proof (cases "py_index metadata i")
      case (Inl e)
      with False Cons.prems(1) show ?thesis by (simp add: h)
    next
      case (Inr entry)
      let ?result = "entry(''similarity'' \<mapsto> PNum s)"
      show ?thesis
      proof (cases "url_key ?result \<in> seen")
        case True
        with False Inr Cons.prems(1) have "collect_loop metadata hits acc seen = Inr cs"
          by (simp add: h Let_def)
        then show ?thesis using Cons.prems(2,3) by (rule Cons.IH)
      next
        case nseen: False
        with False Inr Cons.prems(1)
        have "collect_loop metadata hits (acc @ [?result]) (insert (url_key ?result) seen) = Inr cs"
          by (simp add: h Let_def)
        moreover have "insert (url_key ?result) seen = url_key ` set (acc @ [?result])"
          using Cons.prems(2) by auto
        moreover have "distinct (map url_key (acc @ [?result]))"
          using Cons.prems(2,3) nseen by auto
        ultimately show ?thesis by (rule Cons.IH)
      qed
    qed
  qed
qed

lemma collect_candidates_distinct:
  "collect_candidates metadata hits = Inr cs \<Longrightarrow> distinct (map url_key cs)"
  using collect_loop_distinct[of metadata hits "[]" "{}" cs]
  by (simp add: collect_candidates_def)

lemma url_key_rerank_tags [simp]: "url_key (rerank_tags c score pos) = url_key c"
  by (simp add: url_key_def rerank_tags_def dict_get_def)

lemma rerank_score_of_rerank_tags [simp]:
  "rerank_score_of (rerank_tags c score pos) = of_int score"
  by (simp add: rerank_score_of_def rerank_tags_def dict_get_def)

lemma distinct_keys_at_positions:
  assumes "distinct (map f xs)" and "distinct js" and "\<forall>j\<in>set js. j < length xs"
  shows "distinct (map (\<lambda>j. f (xs ! j)) js)"
proof -
  have "inj_on (\<lambda>j. f (xs ! j)) (set js)"
  proof (rule inj_onI)
    fix a b
    assume a: "a \<in> set js" and b: "b \<in> set js" and e: "f (xs ! a) = f (xs ! b)"
    from a b assms(3) have la: "a < length (map f xs)" and lb: "b < length (map f xs)"
      by simp_all
    from e la lb have "map f xs ! a = map f xs ! b" by simp
    with nth_eq_iff_index_eq[OF assms(1) la lb] show "a = b" by blast
  qed
  with assms(2) show ?thesis by (simp add: distinct_map)
qed

lemma reranked_keys:
  assumes r: "\<forall>i\<in>set ris. 0 \<le> i \<and> i < int (length C)"
  shows "map url_key (ranked_part C ris @ unranked_part C ris) =
     map (\<lambda>j. url_key (C ! j))
         (map nat ris @ filter (\<lambda>i. int i \<notin> set ris) [0..<length C])"
proof -
  have "map url_key (ranked_part C ris) = map (\<lambda>j. url_key (C ! j)) (map nat ris)"
    unfolding ranked_part_positions[OF r]
    by (rule nth_equalityI) simp_all
  moreover have "map url_key (unranked_part C ris) =
      map (\<lambda>j. url_key (C ! j)) (filter (\<lambda>i. int i \<notin> set ris) [0..<length C])"
    unfolding unranked_part_positions by (simp add: comp_def)
  ultimately show ?thesis by simp
qed

lemma reranked_distinct_keys:
  assumes r: "\<forall>i\<in>set ris. 0 \<le> i \<and> i < int (length C)" and d: "distinct ris"
    and k: "distinct (map url_key C)"
  shows "distinct (map url_key (ranked_part C ris @ unranked_part C ris))"
proof -
  let ?js = "map nat ris @ filter (\<lambda>i. int i \<notin> set ris) [0..<length C]"
  have "inj_on nat (set ris)"
  proof (rule inj_onI)
    fix x y
    assume "x \<in> set ris" and "y \<in> set ris" and e: "nat x = nat y"
    with r have "0 \<le> x" and "0 \<le> y" by auto
    with e show "x = y" by (metis nat_0_le)
  qed
  with d have d1: "distinct (map nat ris)" by (simp add: distinct_map)
  have d2: "distinct (filter (\<lambda>i. int i \<notin> set ris) [0..<length C])" by simp
  have "set (map nat ris) \<inter> set (filter (\<lambda>i. int i \<notin> set ris) [0..<length C]) = {}"
  proof (rule ccontr)
    assume "set (map nat ris) \<inter> set (filter (\<lambda>i. int i \<notin> set ris) [0..<length C]) \<noteq> {}"
    then obtain j where j1: "j \<in> set (map nat ris)" and j2: "int j \<notin> set ris" by auto
    from j1 obtain i where i: "i \<in> set ris" and "j = nat i" by auto
    with r have "int j = i" by simp
    with i j2 show False by simp
  qed
  with d1 d2 have dj: "distinct ?js" by simp
  have b: "\<forall>j\<in>set ?js. j < length C" using r by auto
  have "distinct (map (\<lambda>j. url_key (C ! j)) ?js)"
    by (rule distinct_keys_at_positions[OF k dj b])
  then show ?thesis by (simp only: reranked_keys[OF r])
qed

lemma reranked_has_scores:
  assumes r: "\<forall>i\<in>set ris. 0 \<le> i \<and> i < int (length C)" and n: "ris \<noteq> []" and k: "1 \<le> k"
  shows "has_rerank_scores (py_take k (ranked_part C ris @ unranked_part C ris))"
proof -
  let ?first = "rerank_tags (C ! nat (ris ! 0)) (int (length ris) - (int 0 + 1) + 1) (int 0 + 1)"
  from n have l: "0 < length ris" by simp
  then have "[0..<length ris] = 0 # [1..<length ris]" by (simp add: upt_rec)
  then have "ranked_part C ris =
      ?first # map (\<lambda>j. rerank_tags (C ! nat (ris ! j))
                   (int (length ris) - (int j + 1) + 1) (int j + 1)) [1..<length ris]"
    unfolding ranked_part_positions[OF r] by simp
  then obtain rest where e: "ranked_part C ris @ unranked_part C ris = ?first # rest" by simp
  from k have "py_take k (?first # rest) = ?first # take (nat k - 1) rest"
    by (cases "nat k") (simp_all add: py_take_def)
  moreover have "rerank_score_of ?first > 0" using l by simp
  ultimately show ?thesis unfolding e by (simp add: has_rerank_scores_def)
qed

text \<open>
  The reranker's result has distinct url keys, and it either consists of candidates it
  was given or carries a positive rerank score.
\<close>

lemma rerank_result_shape:
  assumes d: "distinct (map url_key C)" and k: "1 \<le> k" and c: "C \<noteq> []"
  shows "distinct (map url_key (rerank_with_gemini llm Q C k))
     \<and> (set (rerank_with_gemini llm Q C k) \<subseteq> set C
        \<or> has_rerank_scores (rerank_with_gemini llm Q C k))"
proof -
  let ?fb = "py_take k (sorted_by_similarity C)"
  have fb: "distinct (map url_key ?fb) \<and> set ?fb \<subseteq> set C"
    using py_take_set[of k "sorted_by_similarity C"]
    by (simp add: py_take_distinct_keys sorted_by_similarity_distinct_keys d)
  show ?thesis
  proof (cases "rerank_with_gemini llm Q C k = ?fb")
    case True
    with fb show ?thesis by simp
  next
    case False
    then have "\<not> (llm = LLMTimeout \<or> llm = LLMError)"
      using rerank_llm_failure[of llm Q C k] by blast
    then obtain t where t: "llm = LLMText t" by (cases llm) auto
    let ?ris = "parse_ranking t (length C)"
    from False t have nfb: "\<not> (list_ex candidate_info_raises C \<or> extract_numbers t = []
         \<or> int (length ?ris) < min k (int (length C)))"
      and e: "rerank_with_gemini llm Q C k
         = py_take k (ranked_part C ?ris @ unranked_part C ?ris)"
      by (auto simp: rerank_text_unfold split: if_splits)
    have r: "\<forall>i\<in>set ?ris. 0 \<le> i \<and> i < int (length C)"
      using parse_ranking_in_range by blast
    from nfb have "\<not> int (length ?ris) < min k (int (length C))" by blast
    moreover from c k have "1 \<le> min k (int (length C))"
      by (cases C) simp_all
    ultimately have "1 \<le> int (length ?ris)" by linarith
    then have n: "?ris \<noteq> []" by auto
    have "distinct (map url_key (ranked_part C ?ris @ unranked_part C ?ris))"
      by (rule reranked_distinct_keys[OF r parse_ranking_distinct d])
    then have "distinct (map url_key (py_take k (ranked_part C ?ris @ unranked_part C ?ris)))"
      by (rule py_take_distinct_keys)
    moreover have "has_rerank_scores (py_take k (ranked_part C ?ris @ unranked_part C ?ris))"
      by (rule reranked_has_scores[OF r n k])
    ultimately show ?thesis unfolding e by simp
  qed
qed

lemma p_candidates_of_returns:
  "p_candidates_of cs results = Inr pc \<Longrightarrow> pc = behavioral_pool cs results"
proof (induction cs arbitrary: pc)
  case Nil
  then show ?case by (simp add: behavioral_pool_def)
next
  case (Cons c cs)
  from Cons.prems obtain s where s: "upper_of (pool_tag c) = Inr s"
    by (cases "upper_of (pool_tag c)") (simp_all add: pool_tag_def)
  from Cons.prems s obtain ps where ps: "p_candidates_of cs results = Inr ps"
    by (cases "p_candidates_of cs results") (simp_all add: pool_tag_def)
  from Cons.IH[OF ps] have "ps = behavioral_pool cs results" .
  with Cons.prems s ps show ?case by (simp add: pool_tag_def behavioral_pool_def)
qed

lemma balance_result_cases:
  assumes "balance_types_light results all_candidates query top_k = Inr balanced"
  shows "balanced = results
     \<or> (\<not> has_rerank_scores results
        \<and> (\<exists>m n. balanced = py_take m results
               @ take n (sorted_by_similarity (behavioral_pool all_candidates results))))"
proof -
  from assms obtain types where t: "types_in_results results = Inr types"
    by (cases "types_in_results results") (simp_all add: balance_types_light_def)
  show ?thesis
  proof (cases "has_rerank_scores results \<or> (''K'' \<in> types \<and> ''P'' \<in> types)
      \<or> \<not> (is_role_query query \<and> ''P'' \<notin> types)")
    case True
    with assms t have "balanced = results"
      unfolding balance_types_light_def by (simp split: if_splits)
    then show ?thesis by simp
  next
    case False
    with assms t obtain pc where pc: "p_candidates_of all_candidates results = Inr pc"
      unfolding balance_types_light_def
      by (cases "p_candidates_of all_candidates results") simp_all
    then have pool: "pc = behavioral_pool all_candidates results"
      by (rule p_candidates_of_returns)
    show ?thesis
    proof (cases "length results \<ge> 8 \<and> pc \<noteq> []")
      case True
      with assms t False pc
      have "balanced = py_take (top_k - int (min 2 (length pc))) results
          @ take (min 2 (length pc)) (sorted_by_similarity pc)"
        unfolding balance_types_light_def by (simp add: Let_def)
      with False pool show ?thesis by blast
    next
      case f: False
      with assms t False pc have "balanced = results"
        unfolding balance_types_light_def by (simp split: if_splits)
      then show ?thesis by simp
    qed
  qed
qed

lemma balance_distinct_keys:
  assumes da: "distinct (map url_key all_candidates)"
    and dr: "distinct (map url_key results)"
    and sh: "set results \<subseteq> set all_candidates \<or> has_rerank_scores results"
    and b: "balance_types_light results all_candidates query top_k = Inr balanced"
  shows "distinct (map url_key balanced)"
proof -
  let ?pool = "behavioral_pool all_candidates results"
  from balance_result_cases[OF b] show ?thesis
  proof
    assume "balanced = results"
    with dr show ?thesis by simp
  next
    assume "\<not> has_rerank_scores results
        \<and> (\<exists>m n. balanced = py_take m results @ take n (sorted_by_similarity ?pool))"
    with sh obtain m n where sub: "set results \<subseteq> set all_candidates"
      and e: "balanced = py_take m results @ take n (sorted_by_similarity ?pool)"
      by blast
    have inj: "inj_on url_key (set all_candidates)" using da by (simp add: distinct_map)
    have d1: "distinct (map url_key (py_take m results))"
      using dr by (rule py_take_distinct_keys)
    have "distinct (map url_key ?pool)"
      unfolding behavioral_pool_def using da by (rule distinct_map_filter)
    then have "distinct (map url_key (sorted_by_similarity ?pool))"
      by (rule sorted_by_similarity_distinct_keys)
    then have d2: "distinct (map url_key (take n (sorted_by_similarity ?pool)))"
      by (simp add: take_map[symmetric] distinct_take)
    have "url_key ` set (py_take m results)
        \<inter> url_key ` set (take n (sorted_by_similarity ?pool)) = {}"
    proof (rule ccontr)
      assume "url_key ` set (py_take m results)
          \<inter> url_key ` set (take n (sorted_by_similarity ?pool)) \<noteq> {}"
      then obtain r p where r: "r \<in> set (py_take m results)"
        and p: "p \<in> set (take n (sorted_by_similarity ?pool))"
        and k: "url_key r = url_key p" by blast
      from py_take_set[of m results] r have r': "r \<in> set results" by (rule subsetD)
      from p have "p \<in> set (sorted_by_similarity ?pool)" by (rule in_set_takeD)
      then have "p \<in> set ?pool" by (simp add: sorted_by_similarity_def)
      then have p1: "p \<in> set all_candidates" and p2: "p \<notin> set results"
        by (simp_all add: behavioral_pool_def)
      from r' sub have "r \<in> set all_candidates" by blast
      with inj p1 k have "r = p" by (meson inj_onD)
      with r' p2 show False by simp
    qed
    with d1 d2 show ?thesis unfolding e by (simp only: map_append distinct_append set_map)
  qed
qed

text \<open>
  Whenever \<^verbatim>\<open>recommend\<close> returns, with \<open>top_k \<ge> 1\<close>, its result has at most
  \<open>top_k\<close> candidates and no two of them have the same url key, for every metadata list,
  index, provider, outcome of the language model and setting of the two flags.
\<close>

lemma recommend_bounded_distinct:
  assumes ret: "recommend index metadata provider llm query top_k balance_types use_reranking
      = Inr recommendations"
    and k: "1 \<le> top_k"
  shows "length recommendations \<le> nat top_k \<and> distinct (map url_key recommendations)"
proof -
  from ret obtain search where i: "index = Some search"
    by (cases index) (simp_all add: recommend_def)
  from ret i obtain v where
    g: "generate_query_embedding EMBEDDING_DIMENSION provider query = Inr v"
    by (cases "generate_query_embedding EMBEDDING_DIMENSION provider query")
       (simp_all add: recommend_def)
  let ?hits = "search v (if use_reranking then top_k * 5
                         else if balance_types then top_k * 3 else top_k)"
  from ret i g obtain all_candidates where
    col: "collect_candidates metadata ?hits = Inr all_candidates"
    by (cases "collect_candidates metadata ?hits") (simp_all add: recommend_def Let_def)
  define cfr where
    "cfr = py_take (min (top_k * 2) (int (length all_candidates))) all_candidates"
  define reranked where
    "reranked = (if use_reranking \<and> length cfr > 0
                 then rerank_with_gemini llm query cfr top_k
                 else py_take top_k (sorted_by_similarity cfr))"
  from ret i g col
  have bt: "balance_and_truncate reranked all_candidates query top_k balance_types
      = Inr recommendations"
    unfolding cfr_def reranked_def by (simp add: recommend_def Let_def)
  have da: "distinct (map url_key all_candidates)"
    using col by (rule collect_candidates_distinct)
  have dc: "distinct (map url_key cfr)" unfolding cfr_def using da by (rule py_take_distinct_keys)
  have sc: "set cfr \<subseteq> set all_candidates" unfolding cfr_def by (rule py_take_set)
  have shape: "distinct (map url_key reranked)
      \<and> (set reranked \<subseteq> set all_candidates \<or> has_rerank_scores reranked)"
  proof (cases "use_reranking \<and> length cfr > 0")
    case True
    then have "cfr \<noteq> []" by auto
    from rerank_result_shape[OF dc k this, of llm query] True sc show ?thesis
      by (auto simp: reranked_def)
  next
    case False
    then have "reranked = py_take top_k (sorted_by_similarity cfr)" by (auto simp: reranked_def)
    moreover have "distinct (map url_key (py_take top_k (sorted_by_similarity cfr)))"
      by (simp add: py_take_distinct_keys sorted_by_similarity_distinct_keys dc)
    moreover have "set (py_take top_k (sorted_by_similarity cfr)) \<subseteq> set all_candidates"
      using py_take_set[of top_k "sorted_by_similarity cfr"] sc by simp
    ultimately show ?thesis by simp
  qed
  from k have k0: "0 \<le> top_k" by simp
  show ?thesis
  proof (cases "balance_types \<and> length all_candidates > length reranked")
    case False
    with bt have "recommendations = py_take top_k reranked"
      by (auto simp: balance_and_truncate_def)
    with shape k0 show ?thesis by (simp add: py_take_length py_take_distinct_keys)
  next
    case True
    with bt obtain balanced where
      b: "balance_types_light reranked all_candidates query top_k = Inr balanced"
      and r: "recommendations = py_take top_k
          (if has_rerank_scores balanced then balanced else sorted_by_similarity balanced)"
      by (auto simp: balance_and_truncate_def split: sum.splits)
    from shape have "distinct (map url_key balanced)"
      by (intro balance_distinct_keys[OF da _ _ b]) simp_all
    then have "distinct (map url_key
        (if has_rerank_scores balanced then balanced else sorted_by_similarity balanced))"
      by (simp add: sorted_by_similarity_distinct_keys)
    with r k0 show ?thesis by (simp add: py_take_length py_take_distinct_keys)
  qed
qed

section \<open>A catalogue on which \<^verbatim>\<open>recommend\<close> raises\<close>

lemma balance_types_light_raises:
  "\<exists>r\<in>set results. \<not> is_str (type_tag r) \<Longrightarrow>
   balance_types_light results all_candidates query top_k = Inl AttributeError"
  by (simp add: balance_types_light_def types_in_results_not_string)

lemma balance_and_truncate_raises:
  "\<exists>r\<in>set results. \<not> is_str (type_tag r) \<Longrightarrow> length results < length all_candidates \<Longrightarrow>
   balance_and_truncate results all_candidates query top_k True = Inl AttributeError"
  by (simp add: balance_and_truncate_def balance_types_light_raises)

lemma example_collect_3:
  "collect_candidates example_metadata (example_index v 3) =
     Inr [[''URL'' \<mapsto> PStr ''a'', ''Test Type'' \<mapsto> PNone, ''similarity'' \<mapsto> PNum 0.9],
          [''URL'' \<mapsto> PStr ''b'', ''Test Type'' \<mapsto> PStr ''K'', ''similarity'' \<mapsto> PNum 0.7],
          [''URL'' \<mapsto> PStr ''c'', ''Test Type'' \<mapsto> PStr ''K'', ''similarity'' \<mapsto> PNum 0.3]]"
  by (simp add: collect_candidates_def example_metadata_def example_index_def py_index_def
      url_key_def py_or_def dict_get_def)

lemma example_collect_5:
  "collect_candidates example_metadata (example_index v 5) =
     Inr [[''URL'' \<mapsto> PStr ''a'', ''Test Type'' \<mapsto> PNone, ''similarity'' \<mapsto> PNum 0.9],
          [''URL'' \<mapsto> PStr ''b'', ''Test Type'' \<mapsto> PStr ''K'', ''similarity'' \<mapsto> PNum 0.7],
          [''URL'' \<mapsto> PStr ''c'', ''Test Type'' \<mapsto> PStr ''K'', ''similarity'' \<mapsto> PNum 0.3],
          [''URL'' \<mapsto> PStr ''d'', ''Test Type'' \<mapsto> PStr ''K'', ''similarity'' \<mapsto> PNum 0.1],
          [''URL'' \<mapsto> PStr ''e'', ''Test Type'' \<mapsto> PStr ''P'', ''similarity'' \<mapsto> PNum 0]]"
  by (simp add: collect_candidates_def example_metadata_def example_index_def py_index_def
      url_key_def py_or_def dict_get_def)

lemma example_embedding:
  "generate_query_embedding d example_provider q = Inr [1]"
  by (simp add: generate_query_embedding_def embed_methods_def example_provider_def)

lemma parse_12: "parse_ranking ''1,2'' 2 = [0, 1]"
  by code_simp

lemma numbers_12: "extract_numbers ''1,2'' \<noteq> []"
  by code_simp

text \<open>
  Claim C4: for \<open>top_k\<close> in [1, 20] and a loaded index, \<^verbatim>\<open>recommend\<close> returns a list
  of at most \<open>top_k\<close> candidates with distinct url keys, whatever the flags and the
  outcomes of the calls. On a catalogue in which the best hit has no category
  (\<^verbatim>\<open>'Test Type'\<close> is \<^verbatim>\<open>None\<close>, what \<^verbatim>\<open>load_index\<close> stores for an empty cell),
  \<^verbatim>\<open>recommend\<close> with balancing returns nothing: the balancer calls
  \<^verbatim>\<open>.upper()\<close> on \<^verbatim>\<open>None\<close> and the \<^verbatim>\<open>AttributeError\<close> leaves
  \<^verbatim>\<open>recommend\<close>, without reranking and after a successful reranking alike.
\<close>

theorem recommend_raises_on_missing_category:
  "recommend (Some example_index) example_metadata example_provider LLMTimeout
      ''java developer'' 1 True False = Inl AttributeError
   \<and> recommend (Some example_index) example_metadata example_provider (LLMText ''1,2'')
      ''java developer'' 1 True True = Inl AttributeError"
proof -
  let ?a = "[''URL'' \<mapsto> PStr ''a'', ''Test Type'' \<mapsto> PNone, ''similarity'' \<mapsto> PNum 0.9]"
  let ?b = "[''URL'' \<mapsto> PStr ''b'', ''Test Type'' \<mapsto> PStr ''K'', ''similarity'' \<mapsto> PNum 0.7]"
  let ?c = "[''URL'' \<mapsto> PStr ''c'', ''Test Type'' \<mapsto> PStr ''K'', ''similarity'' \<mapsto> PNum 0.3]"
  let ?d = "[''URL'' \<mapsto> PStr ''d'', ''Test Type'' \<mapsto> PStr ''K'', ''similarity'' \<mapsto> PNum 0.1]"
  let ?e = "[''URL'' \<mapsto> PStr ''e'', ''Test Type'' \<mapsto> PStr ''P'', ''similarity'' \<mapsto> PNum 0]"
  have na: "\<not> is_str (type_tag ?a)" by (simp add: type_tag_def dict_get_def)
  have s: "py_take 1 (sorted_by_similarity (py_take 2 [?a, ?b, ?c])) = [?a]"
    by (simp add: py_take_def sorted_by_similarity_def similarity_of_def dict_get_def)
  have "balance_and_truncate [?a] [?a, ?b, ?c] ''java developer'' 1 True = Inl AttributeError"
    using na by (intro balance_and_truncate_raises) simp_all
  then have r1: "recommend (Some example_index) example_metadata example_provider LLMTimeout
      ''java developer'' 1 True False = Inl AttributeError"
    by (simp add: recommend_def example_embedding example_collect_3 s)
  have l2: "length [?a, ?b] = 2" by simp
  have nr: "\<not> list_ex candidate_info_raises [?a, ?b]"
    by (simp add: candidate_info_raises_def len_raises_def dict_get_def)
  have "rerank_with_gemini (LLMText ''1,2'') ''java developer'' [?a, ?b] 1
      = py_take 1 (ranked_part [?a, ?b] [0, 1] @ unranked_part [?a, ?b] [0, 1])"
    unfolding rerank_text_unfold l2 parse_12 using nr numbers_12 by simp
  also have "\<dots> = [rerank_tags ?a 2 1]"
    by (simp add: ranked_part_def unranked_part_def py_take_def upt_rec)
  finally have rr: "rerank_with_gemini (LLMText ''1,2'') ''java developer'' [?a, ?b] 1
      = [rerank_tags ?a 2 1]" .
  have "\<not> is_str (type_tag (rerank_tags ?a 2 1))"
    by (simp add: type_tag_def dict_get_def rerank_tags_def)
  then have "balance_and_truncate [rerank_tags ?a 2 1] [?a, ?b, ?c, ?d, ?e]
      ''java developer'' 1 True = Inl AttributeError"
    by (intro balance_and_truncate_raises) simp_all
  then have r2: "recommend (Some example_index) example_metadata example_provider
      (LLMText ''1,2'') ''java developer'' 1 True True = Inl AttributeError"
    by (simp add: recommend_def example_embedding example_collect_5 py_take_def rr)
  from r1 r2 show ?thesis by simp
qed

end
